theory Spec2Isabelle
  imports Main "HOL-Library.Sublist"
begin

section \<open>The PAWS data pipeline: standardising source tables\<close>

text \<open>
  The notebook \<^verbatim>\<open>load_standardized_tables.ipynb\<close> reads three tables (petpoint,
  volgistics, salesforce contacts) with \<^verbatim>\<open>dtype=str\<close>, so every cell of a table is
  either a Python \<^verbatim>\<open>str\<close> or the missing value NaN. A cell is modelled as a
  \<open>string option\<close>, with \<open>None\<close> for NaN. A Python \<^verbatim>\<open>str\<close> is a sequence of
  code points; a \<open>char\<close> here is one code point below 256, and the character
  predicates of Python (\<^verbatim>\<open>str.isspace\<close>, the class \<^verbatim>\<open>\s\<close> of \<^verbatim>\<open>re\<close>,
  \<^verbatim>\<open>str.lower\<close>) are written out with the values they have on these code points.
  Every column operation of the notebook (\<^verbatim>\<open>Series.apply\<close>, \<^verbatim>\<open>+\<close> on two columns
  of one table) computes the value of a row from the values of the same row, so the text
  functions and the match fields are first described on one row. A statement is executed
  on the whole column, however, and an exception in any row ends the notebook cell; the
  cells themselves are therefore described on whole tables.
\<close>

type_synonym cell = "string option"

subsection \<open>Python's character classes\<close>

text \<open>
  \<^verbatim>\<open>str.isspace\<close>, \<^verbatim>\<open>str.strip\<close> and the class \<^verbatim>\<open>\s\<close> of a \<^verbatim>\<open>str\<close>
  pattern agree on what whitespace is: tab, line feed, vertical tab, form feed, carriage
  return, the four separators 0x1C to 0x1F, the space, NEL (0x85) and the no-break space
  (0xA0).
\<close>

definition isspace :: "char \<Rightarrow> bool" where
  "isspace c = ((of_char c :: nat) \<in> {9, 10, 11, 12, 13, 28, 29, 30, 31, 32, 133, 160})"

text \<open>
  \<^verbatim>\<open>str.lower\<close> on one code point: the letters A to Z and the capital letters of
  Latin-1 (0xC0 to 0xDE, the multiplication sign 0xD7 apart) move up by 32.
\<close>

definition lower_char :: "char \<Rightarrow> char" where
  "lower_char c =
     (let n = (of_char c :: nat)
      in if (65 \<le> n \<and> n \<le> 90) \<or> (192 \<le> n \<and> n \<le> 222 \<and> n \<noteq> 215)
         then char_of (n + 32) else c)"

definition lower :: "string \<Rightarrow> string" where
  "lower s = map lower_char s"

text \<open>\<^verbatim>\<open>str.strip()\<close>: whitespace is dropped at both ends.\<close>

definition strip :: "string \<Rightarrow> string" where
  "strip s = rev (dropWhile isspace (rev (dropWhile isspace s)))"

text \<open>
  \<^verbatim>\<open>re.sub(r'\s+', ' ', entry)\<close>: scanning from the left, every maximal run of
  whitespace is replaced by one space.
\<close>

function re_sub_spaces :: "string \<Rightarrow> string" where
  "re_sub_spaces [] = []"
| "re_sub_spaces (c # cs) =
     (if isspace c then CHR '' '' # re_sub_spaces (dropWhile isspace cs)
      else c # re_sub_spaces cs)"
  by pat_completeness auto
termination
  by (relation "measure length") (auto simp: length_dropWhile_le less_Suc_eq_le)

text \<open>\<^verbatim>\<open>sep.join(parts)\<close>.\<close>

fun join :: "string \<Rightarrow> string list \<Rightarrow> string" where
  "join sep [] = []"
| "join sep [w] = w"
| "join sep (w # v # vs) = w @ sep @ join sep (v # vs)"

subsection \<open>The field normaliser and the symbol filter\<close>

text \<open>
  \<^verbatim>\<open>clean_entries\<close>: a missing value becomes the empty string; the value is cast to
  \<^verbatim>\<open>str\<close> (a cell that is not missing is a \<^verbatim>\<open>str\<close> already), lowercased and
  stripped; then the runs of whitespace are cut down to one space.
\<close>

definition clean_entries :: "cell \<Rightarrow> string" where
  "clean_entries entry =
     (let entry = (case entry of None \<Rightarrow> [] | Some s \<Rightarrow> s);
          entry = strip (lower entry);
          entry = re_sub_spaces entry
      in entry)"

text \<open>The default of \<^verbatim>\<open>kept_chars\<close>.\<close>

definition kept_chars_default :: string where
  "kept_chars_default = ''- 1234567890abcdefghijklmnopqrstuvwxyz''"

text \<open>
  \<^verbatim>\<open>strip_symbols\<close>: the characters of the string that occur in \<^verbatim>\<open>kept_chars\<close>,
  in their order (\<^verbatim>\<open>c in kept_chars\<close>, for a one-character \<^verbatim>\<open>c\<close>, is membership;
  joining the kept one-character strings with the empty separator gives them back as one
  string).
\<close>

definition strip_symbols :: "string \<Rightarrow> string \<Rightarrow> string" where
  "strip_symbols char_string kept_chars = filter (\<lambda>c. c \<in> set kept_chars) char_string"

text \<open>
  The chain \<^verbatim>\<open>.apply(clean_entries).apply(strip_symbols)\<close> on one cell, as the
  notebook writes it for names, phone numbers and address components.
\<close>

definition clean_and_strip :: "cell \<Rightarrow> string" where
  "clean_and_strip entry = strip_symbols (clean_entries entry) kept_chars_default"

subsection \<open>Combining address columns\<close>

text \<open>
  What the notebook can raise: \<^verbatim>\<open>KeyError\<close> for a column that the table does not
  have, \<^verbatim>\<open>TypeError\<close> from \<^verbatim>\<open>reduce\<close> on an empty list, and whatever the
  address expansion of the \<^verbatim>\<open>postal\<close> library raises.
\<close>

datatype error = KeyError string | TypeError | ExpansionError

text \<open>
  \<^verbatim>\<open>functools.reduce(f, xs)\<close> without an initial value: the first element starts
  the accumulation, and an empty list is an error. A list of one element is returned as it
  is, \<open>f\<close> is not called.
\<close>

definition reduce :: "('a \<Rightarrow> 'a \<Rightarrow> 'a) \<Rightarrow> 'a list \<Rightarrow> error + 'a" where
  "reduce f xs = (case xs of [] \<Rightarrow> Inl TypeError | x # rest \<Rightarrow> Inr (foldl f x rest))"

text \<open>
  \<^verbatim>\<open>combine_address_columns\<close>: the columns are folded from the left, each step
  cleaning and filtering the accumulated column and the next one and putting one space
  between them; the result of the fold is cleaned once more.
\<close>

definition combine_address_columns :: "cell list \<Rightarrow> error + string" where
  "combine_address_columns address_columns =
     (case reduce (\<lambda>col_1 col_2. Some (clean_and_strip col_1 @ '' '' @ clean_and_strip col_2))
             address_columns of
        Inl e \<Rightarrow> Inl e
      | Inr col \<Rightarrow> Inr (clean_entries col))"

subsection \<open>Rows of a source table\<close>

text \<open>
  A row maps the column names of its table to cells. Reading a column the table does not
  have raises \<^verbatim>\<open>KeyError\<close>; a computation that raised stops there.
\<close>

type_synonym row = "string \<rightharpoonup> cell"

definition and_then :: "error + 'a \<Rightarrow> ('a \<Rightarrow> error + 'b) \<Rightarrow> error + 'b" where
  "and_then m f = (case m of Inl e \<Rightarrow> Inl e | Inr x \<Rightarrow> f x)"

definition column :: "row \<Rightarrow> string \<Rightarrow> error + cell" where
  "column r name = (case r name of None \<Rightarrow> Inl (KeyError name) | Some v \<Rightarrow> Inr v)"

text \<open>A list of column reads, evaluated from the left.\<close>

fun columns :: "row \<Rightarrow> string list \<Rightarrow> error + cell list" where
  "columns r [] = Inr []"
| "columns r (name # names) =
     and_then (column r name) (\<lambda>v. and_then (columns r names) (\<lambda>vs. Inr (v # vs)))"

text \<open>The statement \<^verbatim>\<open>df[target] = df[source].apply(f)\<close> on one row.\<close>

definition assign :: "row \<Rightarrow> string \<Rightarrow> string \<Rightarrow> (cell \<Rightarrow> string) \<Rightarrow> error + row" where
  "assign r target source f = and_then (column r source) (\<lambda>v. Inr (r(target \<mapsto> Some (f v))))"

text \<open>\<^verbatim>\<open>.fillna('').apply(str).str[:5]\<close> on one cell.\<close>

definition first_five :: "cell \<Rightarrow> cell" where
  "first_five v = Some (take 5 (case v of None \<Rightarrow> [] | Some s \<Rightarrow> s))"

subsection \<open>JSON text\<close>

text \<open>
  \<^verbatim>\<open>json.dumps\<close> of a list of strings, with the defaults of the library: the items
  are separated by a comma and a space, and inside a string the quote, the backslash and
  every character outside the printable ASCII range are escaped.
\<close>

definition hex_digit :: "nat \<Rightarrow> char" where
  "hex_digit n = ''0123456789abcdef'' ! (n mod 16)"

definition json_escape :: "char \<Rightarrow> string" where
  "json_escape c =
     (if c = CHR 0x22 then [CHR 0x5C, CHR 0x22]
      else if c = CHR 0x5C then [CHR 0x5C, CHR 0x5C]
      else if c = CHR 0x0A then [CHR 0x5C, CHR ''n'']
      else if c = CHR 0x0D then [CHR 0x5C, CHR ''r'']
      else if c = CHR 0x09 then [CHR 0x5C, CHR ''t'']
      else if c = CHR 0x08 then [CHR 0x5C, CHR ''b'']
      else if c = CHR 0x0C then [CHR 0x5C, CHR ''f'']
      else if 32 \<le> (of_char c :: nat) \<and> (of_char c :: nat) \<le> 126 then [c]
      else [CHR 0x5C, CHR ''u'', CHR ''0'', CHR ''0'',
            hex_digit (of_char c div 16), hex_digit (of_char c)])"

definition json_string :: "string \<Rightarrow> string" where
  "json_string s = CHR 0x22 # concat (map json_escape s) @ [CHR 0x22]"

definition json_dumps :: "string list \<Rightarrow> string" where
  "json_dumps xs = ''['' @ join '', '' (map json_string xs) @ '']''"

subsection \<open>The three sources, on one row\<close>

text \<open>
  The four statements of each notebook cell that compute the match fields, and the list of
  address components that the cell builds, as they act on one row of the table.
\<close>

definition petpoint_match_fields :: "row \<Rightarrow> error + row" where
  "petpoint_match_fields r =
     and_then (assign r ''match_name'' ''outcome_person_name'' clean_and_strip) (\<lambda>r.
     and_then (assign r ''match_email'' ''out_email'' clean_entries) (\<lambda>r.
     and_then (assign r ''match_cell'' ''out_cell_phone'' clean_and_strip) (\<lambda>r.
     assign r ''match_phone'' ''out_home_phone'' clean_and_strip)))"

definition petpoint_addr_components :: "row \<Rightarrow> error + cell list" where
  "petpoint_addr_components r =
     and_then (columns r [''out_street_name'', ''out_street_type'', ''out_street_direction'',
         ''out_street_direction2'', ''out_unit_number'', ''out_city'', ''out_province''])
       (\<lambda>vs.
     and_then (column r ''out_postal_code'') (\<lambda>z. Inr (vs @ [first_five z])))"

definition volgistics_match_fields :: "row \<Rightarrow> error + row" where
  "volgistics_match_fields r =
     and_then (assign r ''match_name'' ''last_name_first_name'' clean_and_strip) (\<lambda>r.
     and_then (assign r ''match_email'' ''email'' clean_entries) (\<lambda>r.
     and_then (assign r ''match_cell'' ''cell'' clean_and_strip) (\<lambda>r.
     assign r ''match_phone'' ''home'' clean_and_strip)))"

definition volgistics_addr_components :: "row \<Rightarrow> error + cell list" where
  "volgistics_addr_components r =
     and_then (columns r [''street_1'', ''street_2'', ''street_3'', ''city'', ''state''])
       (\<lambda>vs.
     and_then (column r ''zip'') (\<lambda>z. Inr (vs @ [first_five z])))"

definition sf_contacts_match_fields :: "row \<Rightarrow> error + row" where
  "sf_contacts_match_fields r =
     and_then (column r ''last_name'') (\<lambda>last_name.
     and_then (column r ''first_name'') (\<lambda>first_name.
     let r = r(''match_name'' \<mapsto>
               Some (clean_and_strip last_name @ '' '' @ clean_and_strip first_name)) in
     and_then (assign r ''match_email'' ''email'' clean_entries) (\<lambda>r.
     and_then (assign r ''match_cell'' ''mobile'' clean_and_strip) (\<lambda>r.
     assign r ''match_phone'' ''phone'' clean_and_strip))))"

definition sf_contacts_addr_components :: "row \<Rightarrow> error + cell list" where
  "sf_contacts_addr_components r =
     and_then (columns r [''mailing_street'', ''mailing_city'', ''mailing_state_province''])
       (\<lambda>vs.
     and_then (column r ''mailing_zip_postal_code'') (\<lambda>z. Inr (vs @ [first_five z])))"

subsection \<open>Tables\<close>

text \<open>
  A \<^verbatim>\<open>Series\<close> is the list of the cells of a column, a \<^verbatim>\<open>DataFrame\<close> maps
  column names to columns, and the database maps table names to tables. All columns of
  one table have the same length.
\<close>

type_synonym series = "cell list"
type_synonym dataframe = "string \<rightharpoonup> series"
type_synonym database = "string \<rightharpoonup> dataframe"

text \<open>\<^verbatim>\<open>df[name]\<close>, and a list of such reads evaluated from the left.\<close>

definition getitem :: "dataframe \<Rightarrow> string \<Rightarrow> error + series" where
  "getitem df name = (case df name of None \<Rightarrow> Inl (KeyError name) | Some s \<Rightarrow> Inr s)"

fun getitems :: "dataframe \<Rightarrow> string list \<Rightarrow> error + series list" where
  "getitems df [] = Inr []"
| "getitems df (name # names) =
     and_then (getitem df name) (\<lambda>s. and_then (getitems df names) (\<lambda>ss. Inr (s # ss)))"

text \<open>The statement \<^verbatim>\<open>df[target] = df[source].apply(f)\<close> on the whole column.\<close>

definition assign_column ::
  "dataframe \<Rightarrow> string \<Rightarrow> string \<Rightarrow> (cell \<Rightarrow> string) \<Rightarrow> error + dataframe" where
  "assign_column df target source f =
     and_then (getitem df source) (\<lambda>s. Inr (df(target \<mapsto> map (\<lambda>v. Some (f v)) s)))"

text \<open>
  The expression \<^verbatim>\<open>col_1.apply(clean_entries).apply(strip_symbols) + ' ' +
  col_2.apply(clean_entries).apply(strip_symbols)\<close> on two columns of one table: the body
  of the function that \<^verbatim>\<open>combine_address_columns\<close> folds with, and the salesforce
  name.
\<close>

definition clean_strip_concat :: "series \<Rightarrow> series \<Rightarrow> series" where
  "clean_strip_concat col_1 col_2 =
     map (\<lambda>(a, b). Some (a @ '' '' @ b))
       (zip (map clean_and_strip col_1) (map clean_and_strip col_2))"

text \<open>
  \<^verbatim>\<open>combine_address_columns\<close> on the columns it is called with. Its value in one
  row is \<open>combine_address_columns\<close> of the components of that row (lemma
  \<open>combine_address_series_rows\<close>).
\<close>

definition combine_address_series :: "series list \<Rightarrow> error + string list" where
  "combine_address_series address_columns =
     (case reduce clean_strip_concat address_columns of
        Inl e \<Rightarrow> Inl e
      | Inr col \<Rightarrow> Inr (map clean_entries col))"

text \<open>
  \<^verbatim>\<open>Series.apply(f)\<close> with a function that may raise: the function is called row
  after row, and the first exception ends the whole \<^verbatim>\<open>apply\<close>, whatever was
  computed for the rows before.
\<close>

fun apply_each :: "('a \<Rightarrow> error + 'b) \<Rightarrow> 'a list \<Rightarrow> error + 'b list" where
  "apply_each f [] = Inr []"
| "apply_each f (x # xs) =
     and_then (f x) (\<lambda>y. and_then (apply_each f xs) (\<lambda>ys. Inr (y # ys)))"

text \<open>
  The two statements that fill \<^verbatim>\<open>match_address_list\<close>: the combined address
  columns, then \<^verbatim>\<open>.apply(expand_address, languages=['en']).apply(json.dumps)\<close> on
  that column. \<^verbatim>\<open>expand_address\<close> belongs to the \<^verbatim>\<open>postal\<close> library and is a
  parameter here: a function from the address to the list of its expansions, which may
  raise. The column of the first statement is replaced by the second, so only the second
  one is written to the table.
\<close>

definition match_address_list ::
  "(string \<Rightarrow> error + string list) \<Rightarrow> series list \<Rightarrow> dataframe \<Rightarrow> error + dataframe" where
  "match_address_list expand_address addr_components df =
     and_then (combine_address_series addr_components) (\<lambda>addresses.
     and_then (apply_each expand_address addresses) (\<lambda>expansions.
     Inr (df(''match_address_list'' \<mapsto>
            map (\<lambda>candidates. Some (json_dumps candidates)) expansions))))"

text \<open>\<^verbatim>\<open>load_to_sqlite\<close>: the table replaces the one of that name.\<close>

definition load_to_sqlite :: "dataframe \<Rightarrow> string \<Rightarrow> database \<Rightarrow> database" where
  "load_to_sqlite df table_name connection = connection(table_name \<mapsto> df)"

text \<open>
  The three notebook cells, from the table that was read to the database: the match
  fields, the address components, the address column, and the load. A cell that raises
  loads nothing.
\<close>

definition petpoint ::
  "(string \<Rightarrow> error + string list) \<Rightarrow> dataframe \<Rightarrow> database \<Rightarrow> error + database" where
  "petpoint expand_address petpoint_df conn =
     and_then (assign_column petpoint_df ''match_name'' ''outcome_person_name'' clean_and_strip)
       (\<lambda>df.
     and_then (assign_column df ''match_email'' ''out_email'' clean_entries) (\<lambda>df.
     and_then (assign_column df ''match_cell'' ''out_cell_phone'' clean_and_strip) (\<lambda>df.
     and_then (assign_column df ''match_phone'' ''out_home_phone'' clean_and_strip) (\<lambda>df.
     and_then (getitems df [''out_street_name'', ''out_street_type'', ''out_street_direction'',
         ''out_street_direction2'', ''out_unit_number'', ''out_city'', ''out_province''])
       (\<lambda>components.
     and_then (getitem df ''out_postal_code'') (\<lambda>postal_code.
     and_then (match_address_list expand_address (components @ [map first_five postal_code]) df)
       (\<lambda>df.
     Inr (load_to_sqlite df ''petpoint'' conn))))))))"

definition volgistics ::
  "(string \<Rightarrow> error + string list) \<Rightarrow> dataframe \<Rightarrow> database \<Rightarrow> error + database" where
  "volgistics expand_address volgistics_df conn =
     and_then (assign_column volgistics_df ''match_name'' ''last_name_first_name''
         clean_and_strip) (\<lambda>df.
     and_then (assign_column df ''match_email'' ''email'' clean_entries) (\<lambda>df.
     and_then (assign_column df ''match_cell'' ''cell'' clean_and_strip) (\<lambda>df.
     and_then (assign_column df ''match_phone'' ''home'' clean_and_strip) (\<lambda>df.
     and_then (getitems df [''street_1'', ''street_2'', ''street_3'', ''city'', ''state''])
       (\<lambda>components.
     and_then (getitem df ''zip'') (\<lambda>zip_code.
     and_then (match_address_list expand_address (components @ [map first_five zip_code]) df) (\<lambda>df.
     Inr (load_to_sqlite df ''volgistics'' conn))))))))"

definition sf_contacts ::
  "(string \<Rightarrow> error + string list) \<Rightarrow> dataframe \<Rightarrow> database \<Rightarrow> error + database" where
  "sf_contacts expand_address sf_contacts_df conn =
     and_then (getitem sf_contacts_df ''last_name'') (\<lambda>last_name.
     and_then (getitem sf_contacts_df ''first_name'') (\<lambda>first_name.
     let df = sf_contacts_df(''match_name'' \<mapsto> clean_strip_concat last_name first_name) in
     and_then (assign_column df ''match_email'' ''email'' clean_entries) (\<lambda>df.
     and_then (assign_column df ''match_cell'' ''mobile'' clean_and_strip) (\<lambda>df.
     and_then (assign_column df ''match_phone'' ''phone'' clean_and_strip) (\<lambda>df.
     and_then (getitems df [''mailing_street'', ''mailing_city'', ''mailing_state_province''])
       (\<lambda>components.
     and_then (getitem df ''mailing_zip_postal_code'') (\<lambda>postal_code.
     and_then (match_address_list expand_address (components @ [map first_five postal_code]) df)
       (\<lambda>df.
     Inr (load_to_sqlite df ''salesforcecontacts'' conn)))))))))"

text \<open>The row of a table at an index below the length of its columns.\<close>

definition row_at :: "dataframe \<Rightarrow> nat \<Rightarrow> row" where
  "row_at df i = (\<lambda>name. map_option (\<lambda>s. s ! i) (df name))"

subsection \<open>Words of a string\<close>

text \<open>
  The whitespace-separated words of a string, used to state what the normaliser
  computes: \<open>fields\<close> cuts a string at every whitespace character (so that two
  adjacent whitespace characters enclose an empty field), and \<open>split_ws\<close> keeps the
  fields that are not empty, as \<^verbatim>\<open>str.split()\<close> does.
\<close>

fun fields :: "string \<Rightarrow> string list" where
  "fields [] = [[]]"
| "fields (c # cs) =
     (if isspace c then [] # fields cs
      else (case fields cs of [] \<Rightarrow> [[c]] | w # ws \<Rightarrow> (c # w) # ws))"

definition split_ws :: "string \<Rightarrow> string list" where
  "split_ws s = filter (\<lambda>w. w \<noteq> []) (fields s)"

text \<open>
  The normaliser as the specification words it: nothing for a missing value; otherwise
  the lowercased text without leading and trailing whitespace and with one space for every
  run of whitespace inside, that is, its words joined by single spaces.
\<close>

definition normalize_spec :: "cell \<Rightarrow> string" where
  "normalize_spec v = (case v of None \<Rightarrow> [] | Some s \<Rightarrow> join '' '' (split_ws (lower s)))"

text \<open>
  The address canonicaliser as the specification words it: normalise and filter every
  component on its own, join the results with single spaces, and normalise the joined
  text again.
\<close>

definition combine_reference :: "cell list \<Rightarrow> string" where
  "combine_reference components =
     clean_entries (Some (join '' '' (map clean_and_strip components)))"

subsection \<open>Example inputs\<close>

text \<open>
  Four address expansions to run the model with: one that returns no candidate, one that
  raises, one that returns its input as the only candidate, and one that does so but raises
  on the empty address.
\<close>

definition expand_no_candidates :: "string \<Rightarrow> error + string list" where
  "expand_no_candidates address = Inr []"

definition expand_raises :: "string \<Rightarrow> error + string list" where
  "expand_raises address = Inl ExpansionError"

definition expand_identity :: "string \<Rightarrow> error + string list" where
  "expand_identity address = Inr [address]"

definition expand_nonempty :: "string \<Rightarrow> error + string list" where
  "expand_nonempty address = (if address = [] then Inl ExpansionError else Inr [address])"

text \<open>One row of each source.\<close>

definition petpoint_example :: row where
  "petpoint_example =
     [''outcome_person_name'' \<mapsto> Some ''O'Neil,  Jane'',
      ''out_email'' \<mapsto> Some ''Jane.Doe@X.COM '',
      ''out_cell_phone'' \<mapsto> Some ''(215) 555-0100'',
      ''out_home_phone'' \<mapsto> None,
      ''out_street_name'' \<mapsto> Some ''12 Main'',
      ''out_street_type'' \<mapsto> Some ''St.'',
      ''out_street_direction'' \<mapsto> None,
      ''out_street_direction2'' \<mapsto> None,
      ''out_unit_number'' \<mapsto> Some ''#4'',
      ''out_city'' \<mapsto> Some ''Philadelphia'',
      ''out_province'' \<mapsto> Some ''PA'',
      ''out_postal_code'' \<mapsto> Some ''19104-1234'']"

definition volgistics_example :: row where
  "volgistics_example =
     [''last_name_first_name'' \<mapsto> Some ''Doe, John'',
      ''email'' \<mapsto> Some '' J_Doe@Example.org'',
      ''cell'' \<mapsto> None,
      ''home'' \<mapsto> Some ''215.555.0101'',
      ''street_1'' \<mapsto> Some ''7 Elm Ave'',
      ''street_2'' \<mapsto> None,
      ''street_3'' \<mapsto> None,
      ''city'' \<mapsto> Some ''Camden'',
      ''state'' \<mapsto> Some ''NJ'',
      ''zip'' \<mapsto> None]"

definition sf_contacts_example :: row where
  "sf_contacts_example =
     [''last_name'' \<mapsto> Some ''Smith'',
      ''first_name'' \<mapsto> Some ''Ann-Marie'',
      ''email'' \<mapsto> Some ''AM.Smith+paws@Mail.com'',
      ''mobile'' \<mapsto> Some ''267 555 0102'',
      ''phone'' \<mapsto> None,
      ''mailing_street'' \<mapsto> Some ''3 Oak Rd'',
      ''mailing_city'' \<mapsto> Some ''Phila'',
      ''mailing_state_province'' \<mapsto> Some ''PA'',
      ''mailing_zip_postal_code'' \<mapsto> Some ''1910'']"

text \<open>
  A salesforce table of two rows, the second without an address, and the reading of a
  column of a table that a cell has loaded.
\<close>

definition sf_contacts_frame :: dataframe where
  "sf_contacts_frame =
     [''last_name'' \<mapsto> [Some ''Smith'', Some ''Jones''],
      ''first_name'' \<mapsto> [Some ''Ann'', None],
      ''email'' \<mapsto> [Some ''A.Smith@Mail.com'', None],
      ''mobile'' \<mapsto> [Some ''267 555'', None],
      ''phone'' \<mapsto> [None, None],
      ''mailing_street'' \<mapsto> [Some ''3 Oak Rd'', None],
      ''mailing_city'' \<mapsto> [Some ''Phila'', None],
      ''mailing_state_province'' \<mapsto> [Some ''PA'', None],
      ''mailing_zip_postal_code'' \<mapsto> [Some ''19104-1234'', None]]"

definition stored :: "error + database \<Rightarrow> string \<Rightarrow> string \<Rightarrow> error + series" where
  "stored result table_name name =
     and_then result (\<lambda>conn.
       case conn table_name of
         None \<Rightarrow> Inl (KeyError table_name)
       | Some df \<Rightarrow> getitem df name)"

section \<open>Properties\<close>

subsection \<open>Characters\<close>

lemma isspace_space: "isspace (CHR '' '')"
  by (simp add: isspace_def)

lemma lower_char_idem: "lower_char (lower_char c) = lower_char c"
  by (auto simp: lower_char_def Let_def)

lemma isspace_lower_char: "isspace (lower_char c) = isspace c"
  by (auto simp: lower_char_def isspace_def Let_def)

lemma lower_char_space: "lower_char (CHR '' '') = CHR '' ''"
  by (simp add: lower_char_def)

lemmas eval_text = clean_entries_def strip_def lower_def lower_char_def isspace_def
  char_of_eq_iff strip_symbols_def kept_chars_default_def

lemmas eval_frame = stored_def getitem_def assign_column_def and_then_def
  match_address_list_def combine_address_series_def reduce_def clean_strip_concat_def
  clean_and_strip_def first_five_def load_to_sqlite_def json_dumps_def json_string_def
  json_escape_def

subsection \<open>Fields and words\<close>

lemma fields_not_Nil: "fields s \<noteq> []"
  by (induction s) (auto split: list.splits)

lemma fields_append_space:
  "isspace sp \<Longrightarrow> fields (a @ sp # b) = fields a @ fields b"
  using fields_not_Nil by (induction a) (auto split: list.splits)

lemma split_ws_Nil: "split_ws [] = []"
  by (simp add: split_ws_def)

lemma split_ws_append_space:
  "isspace sp \<Longrightarrow> split_ws (a @ sp # b) = split_ws a @ split_ws b"
  by (simp add: split_ws_def fields_append_space)

lemma split_ws_Cons_space: "isspace c \<Longrightarrow> split_ws (c # s) = split_ws s"
  by (simp add: split_ws_def)

lemma split_ws_dropWhile: "split_ws (dropWhile isspace s) = split_ws s"
  by (induction s) (simp_all add: split_ws_Cons_space)

lemma split_ws_all_space: "\<forall>c\<in>set t. isspace c \<Longrightarrow> split_ws t = []"
  by (induction t) (simp_all add: split_ws_Cons_space split_ws_Nil)

lemma split_ws_append_all_space:
  "\<forall>c\<in>set t. isspace c \<Longrightarrow> split_ws (r @ t) = split_ws r"
  by (cases t) (simp_all add: split_ws_append_space split_ws_all_space)

lemma split_ws_empty_iff: "split_ws s = [] \<longleftrightarrow> (\<forall>c\<in>set s. isspace c)"
proof (induction s)
  case Nil
  show ?case by (simp add: split_ws_def)
next
  case (Cons c cs)
  show ?case
  proof (cases "isspace c")
    case True
    with Cons show ?thesis by (simp add: split_ws_Cons_space)
  next
    case False
    then show ?thesis
      using fields_not_Nil [of cs] by (auto simp: split_ws_def split: list.splits)
  qed
qed

lemma split_ws_Cons_nonspace:
  "\<not> isspace c \<Longrightarrow>
   split_ws (c # cs) =
     (if cs = [] \<or> isspace (hd cs) then [c] # split_ws cs
      else (c # hd (split_ws cs)) # tl (split_ws cs))"
proof (cases cs)
  case Nil
  assume "\<not> isspace c"
  with Nil show ?thesis by (simp add: split_ws_def)
next
  case (Cons d ds)
  assume c: "\<not> isspace c"
  show ?thesis
  proof (cases "isspace d")
    case True
    with c Cons show ?thesis by (simp add: split_ws_def)
  next
    case False
    with c Cons show ?thesis
      using fields_not_Nil [of ds] by (auto simp: split_ws_def split: list.splits)
  qed
qed

lemma split_ws_hd_nonempty:
  "cs \<noteq> [] \<Longrightarrow> \<not> isspace (hd cs) \<Longrightarrow> split_ws cs = hd (split_ws cs) # tl (split_ws cs)"
  using split_ws_empty_iff [of cs] by (cases cs) auto

lemma fields_no_space: "\<forall>c\<in>set s. \<not> isspace c \<Longrightarrow> fields s = [s]"
  by (induction s) auto

lemma fields_words_all: "\<forall>w\<in>set (fields s). \<forall>c\<in>set w. \<not> isspace c"
proof (induction s)
  case Nil
  show ?case by simp
next
  case (Cons d ds)
  obtain a rest where f: "fields ds = a # rest"
    using fields_not_Nil [of ds] by (cases "fields ds") auto
  with Cons show ?case by (cases "isspace d") simp_all
qed

lemma split_ws_words:
  "w \<in> set (split_ws s) \<Longrightarrow> w \<noteq> [] \<and> (\<forall>c\<in>set w. \<not> isspace c)"
  using fields_words_all [of s] by (auto simp: split_ws_def)

lemma split_ws_word: "w \<noteq> [] \<Longrightarrow> \<forall>c\<in>set w. \<not> isspace c \<Longrightarrow> split_ws w = [w]"
  by (simp add: split_ws_def fields_no_space)

lemma join_Cons_Cons: "join sep ((c # w) # rest) = c # join sep (w # rest)"
  by (cases rest) simp_all

lemma split_ws_join:
  "\<forall>w\<in>set ws. w \<noteq> [] \<and> (\<forall>c\<in>set w. \<not> isspace c) \<Longrightarrow> split_ws (join '' '' ws) = ws"
proof (induction ws rule: induct_list012)
  case 1
  show ?case by (simp add: split_ws_Nil)
next
  case (2 w)
  then show ?case by (simp add: split_ws_word)
next
  case (3 w v vs)
  then show ?case
    by (simp add: split_ws_append_space isspace_space split_ws_word)
qed

lemma split_ws_idem: "split_ws (join '' '' (split_ws s)) = split_ws s"
  by (rule split_ws_join) (use split_ws_words in blast)

subsection \<open>Stripping and collapsing\<close>

lemma strip_decomp:
  "\<exists>t. (\<forall>c\<in>set t. isspace c) \<and> dropWhile isspace s = strip s @ t"
proof -
  let ?s' = "dropWhile isspace s"
  have "rev (dropWhile isspace (rev ?s')) @ rev (takeWhile isspace (rev ?s')) =
        rev (takeWhile isspace (rev ?s') @ dropWhile isspace (rev ?s'))"
    by (simp only: rev_append)
  also have "\<dots> = ?s'"
    by (simp only: takeWhile_dropWhile_id rev_rev_ident)
  finally have "?s' = strip s @ rev (takeWhile isspace (rev ?s'))"
    unfolding strip_def by (rule sym)
  moreover have "\<forall>c\<in>set (rev (takeWhile isspace (rev ?s'))). isspace c"
    by (auto dest: set_takeWhileD)
  ultimately show ?thesis by blast
qed

lemma split_ws_strip: "split_ws (strip s) = split_ws s"
proof -
  obtain t where t: "\<forall>c\<in>set t. isspace c" "dropWhile isspace s = strip s @ t"
    using strip_decomp by blast
  have "split_ws s = split_ws (dropWhile isspace s)" by (simp add: split_ws_dropWhile)
  also have "\<dots> = split_ws (strip s)" using t by (simp add: split_ws_append_all_space)
  finally show ?thesis by simp
qed

lemma strip_last: "strip s \<noteq> [] \<Longrightarrow> \<not> isspace (last (strip s))"
  unfolding strip_def by (simp add: last_rev hd_dropWhile)

lemma strip_hd: "strip s \<noteq> [] \<Longrightarrow> \<not> isspace (hd (strip s))"
proof -
  assume ne: "strip s \<noteq> []"
  obtain t where t: "dropWhile isspace s = strip s @ t"
    using strip_decomp by blast
  with ne have "hd (strip s) = hd (dropWhile isspace s)" by simp
  moreover have "dropWhile isspace s \<noteq> []" using t ne by simp
  ultimately show ?thesis by (simp add: hd_dropWhile)
qed

lemma re_sub_spaces_join:
  "s = [] \<or> \<not> isspace (last s) \<Longrightarrow>
   re_sub_spaces s =
     (if s \<noteq> [] \<and> isspace (hd s) then '' '' else []) @ join '' '' (split_ws s)"
proof (induction s rule: re_sub_spaces.induct)
  case 1
  show ?case by (simp add: split_ws_Nil)
next
  case (2 c cs)
  show ?case
  proof (cases "isspace c")
    case True
    let ?d = "dropWhile isspace cs"
    from True "2.prems" have cs: "cs \<noteq> []" "\<not> isspace (last cs)"
      by (auto split: if_splits)
    then have d_ne: "?d \<noteq> []" by (auto simp: dropWhile_eq_Nil_conv)
    have hd_d: "\<not> isspace (hd ?d)" using d_ne by (simp add: hd_dropWhile)
    obtain t where "cs = t @ ?d" by (metis takeWhile_dropWhile_id)
    with d_ne have "last ?d = last cs" by (metis last_appendR)
    with cs have "\<not> isspace (last ?d)" by simp
    with "2.IH"(1) True hd_d
    have "re_sub_spaces ?d = join '' '' (split_ws ?d)" by simp
    with True show ?thesis
      by (simp add: split_ws_Cons_space split_ws_dropWhile)
  next
    case False
    from "2.prems" have "cs = [] \<or> \<not> isspace (last cs)" by (auto split: if_splits)
    with "2.IH"(2) False
    have ih: "re_sub_spaces cs =
      (if cs \<noteq> [] \<and> isspace (hd cs) then '' '' else []) @ join '' '' (split_ws cs)"
      by simp
    show ?thesis
    proof (cases "cs = []")
      case True
      with False show ?thesis by (simp add: split_ws_Cons_nonspace split_ws_Nil)
    next
      case ne: False
      show ?thesis
      proof (cases "isspace (hd cs)")
        case True
        from ne "2.prems" have "\<not> isspace (last cs)" by simp
        with ne have "split_ws cs \<noteq> []"
          by (auto simp: split_ws_empty_iff)
        then obtain v vs where "split_ws cs = v # vs" by (cases "split_ws cs") auto
        with False True ne ih show ?thesis
          by (simp add: split_ws_Cons_nonspace)
      next
        case hd_ns: False
        have "split_ws cs = hd (split_ws cs) # tl (split_ws cs)"
          using ne hd_ns by (rule split_ws_hd_nonempty)
        then have "join '' '' (split_ws cs) =
            join '' '' (hd (split_ws cs) # tl (split_ws cs))"
          by simp
        with False hd_ns ne ih show ?thesis
          by (simp add: split_ws_Cons_nonspace join_Cons_Cons)
      qed
    qed
  qed
qed

lemma normalize_join_split: "re_sub_spaces (strip s) = join '' '' (split_ws s)"
proof -
  have "strip s = [] \<or> \<not> isspace (last (strip s))"
    using strip_last by blast
  then have "re_sub_spaces (strip s) =
      (if strip s \<noteq> [] \<and> isspace (hd (strip s)) then '' '' else []) @
      join '' '' (split_ws (strip s))"
    by (rule re_sub_spaces_join)
  moreover have "\<not> (strip s \<noteq> [] \<and> isspace (hd (strip s)))"
    using strip_hd by blast
  ultimately show ?thesis by (simp add: split_ws_strip)
qed

lemma set_strip: "set (strip s) \<subseteq> set s"
  unfolding strip_def by (auto dest!: set_dropWhileD)

lemma set_re_sub_spaces: "set (re_sub_spaces s) \<subseteq> insert (CHR '' '') (set s)"
  by (induction s rule: re_sub_spaces.induct) (auto dest: set_dropWhileD)

lemma clean_entries_words:
  "clean_entries v = join '' '' (split_ws (lower (case v of None \<Rightarrow> [] | Some s \<Rightarrow> s)))"
  by (simp add: clean_entries_def normalize_join_split)

lemma set_clean_entries:
  "set (clean_entries v) \<subseteq>
   insert (CHR '' '') (set (lower (case v of None \<Rightarrow> [] | Some s \<Rightarrow> s)))"
  unfolding clean_entries_def Let_def
  using set_re_sub_spaces set_strip by fastforce

lemma lower_clean_entries: "lower (clean_entries v) = clean_entries v"
proof -
  have "lower_char c = c" if "c \<in> set (clean_entries v)" for c
  proof -
    from that set_clean_entries [of v]
    have "c = CHR '' '' \<or> c \<in> lower_char ` set (case v of None \<Rightarrow> [] | Some s \<Rightarrow> s)"
      by (auto simp: lower_def)
    then show ?thesis by (auto simp: lower_char_space lower_char_idem)
  qed
  then show ?thesis by (simp add: lower_def map_idI)
qed

subsection \<open>The field normaliser\<close>

text \<open>
  C5: \<^verbatim>\<open>clean_entries\<close> returns the empty string for a missing value, and for a
  string its lowercased text with the whitespace at both ends removed and every run of
  whitespace inside replaced by one space, which is the lowercased text's words joined
  by single spaces. The result is a string in every case, never a missing value.
\<close>

theorem clean_entries_meets_spec:
  "clean_entries None = [] \<and>
   clean_entries (Some s) = join '' '' (split_ws (lower s)) \<and>
   clean_entries v = normalize_spec v"
  by (simp add: clean_entries_words normalize_spec_def split_ws_Nil lower_def
      split: option.split)

text \<open>
  C2: \<^verbatim>\<open>clean_entries\<close> is idempotent: normalising a normalised value changes
  nothing.
\<close>

theorem clean_entries_idempotent:
  "clean_entries (Some (clean_entries (Some x))) = clean_entries (Some x)"
proof -
  have "clean_entries (Some (clean_entries (Some x))) =
      join '' '' (split_ws (lower (clean_entries (Some x))))"
    by (simp add: clean_entries_words)
  also have "\<dots> = join '' '' (split_ws (clean_entries (Some x)))"
    by (simp only: lower_clean_entries)
  also have "\<dots> = join '' '' (split_ws (join '' '' (split_ws (lower x))))"
    by (simp add: clean_entries_words)
  also have "\<dots> = join '' '' (split_ws (lower x))"
    by (simp only: split_ws_idem)
  also have "\<dots> = clean_entries (Some x)"
    by (simp add: clean_entries_words)
  finally show ?thesis .
qed

subsection \<open>The symbol filter\<close>

text \<open>
  C3: every character of \<^verbatim>\<open>strip_symbols(x, C)\<close> is a character of \<open>C\<close>; the result
  is a subsequence of \<open>x\<close>, so the kept characters stand in the order they have in \<open>x\<close>,
  and every character of \<open>C\<close> is kept as often as it occurs in \<open>x\<close>; on the empty
  string the result is the empty string.
\<close>

theorem strip_symbols_closure_order:
  "set (strip_symbols x C) \<subseteq> set C \<and>
   subseq (strip_symbols x C) x \<and>
   (\<forall>c\<in>set C. count_list (strip_symbols x C) c = count_list x c) \<and>
   strip_symbols [] C = []"
proof -
  have "count_list (filter P xs) c = count_list xs c" if "P c" for P and xs :: string and c
    using that by (induction xs) auto
  then show ?thesis by (auto simp: strip_symbols_def)
qed

theorem strip_symbols_closure_order_witness:
  "set (strip_symbols ''o'neil, j.'' kept_chars_default) \<subseteq> set kept_chars_default \<and>
   subseq (strip_symbols ''o'neil, j.'' kept_chars_default) ''o'neil, j.'' \<and>
   count_list (strip_symbols ''o'neil, j.'' kept_chars_default) (CHR ''j'') =
     count_list ''o'neil, j.'' (CHR ''j'') \<and>
   strip_symbols ''o'neil, j.'' kept_chars_default = ''oneil j''"
proof -
  have j: "CHR ''j'' \<in> set kept_chars_default"
    by (simp add: kept_chars_default_def)
  have value_at: "strip_symbols ''o'neil, j.'' kept_chars_default = ''oneil j''"
    by (simp add: strip_symbols_def kept_chars_default_def)
  from strip_symbols_closure_order [of "''o'neil, j.''" kept_chars_default] j value_at
  show ?thesis by blast
qed

text \<open>
  C10: \<^verbatim>\<open>strip_symbols\<close> is idempotent for every character set: a second pass keeps
  everything the first one kept.
\<close>

theorem strip_symbols_idempotent:
  "strip_symbols (strip_symbols x C) C = strip_symbols x C"
  by (simp add: strip_symbols_def)

subsection \<open>Combining address columns\<close>

lemma kept_lower_char: "c \<in> set kept_chars_default \<Longrightarrow> lower_char c = c"
  by (auto simp: kept_chars_default_def lower_char_def)

lemma kept_space: "CHR '' '' \<in> set kept_chars_default"
  by (simp add: kept_chars_default_def)

lemma lower_kept: "set s \<subseteq> set kept_chars_default \<Longrightarrow> lower s = s"
  unfolding lower_def by (rule map_idI) (auto simp: kept_lower_char)

lemma set_clean_and_strip: "set (clean_and_strip c) \<subseteq> set kept_chars_default"
  by (auto simp: clean_and_strip_def strip_symbols_def)

lemma set_clean_entries_kept:
  "set s \<subseteq> set kept_chars_default \<Longrightarrow> set (clean_entries (Some s)) \<subseteq> set kept_chars_default"
  using set_clean_entries [of "Some s"] kept_space by (auto simp: lower_kept)

lemma clean_and_strip_kept:
  "set s \<subseteq> set kept_chars_default \<Longrightarrow> clean_and_strip (Some s) = clean_entries (Some s)"
  using set_clean_entries_kept [of s]
  by (auto simp: clean_and_strip_def strip_symbols_def filter_id_conv)

lemma split_ws_clean_entries_append:
  "split_ws (lower (clean_entries (Some a) @ CHR '' '' # b)) =
   split_ws (lower (a @ CHR '' '' # b))"
proof -
  have "lower (clean_entries (Some a) @ CHR '' '' # b) =
      clean_entries (Some a) @ CHR '' '' # lower b"
    using lower_clean_entries [of "Some a"] by (simp add: lower_def lower_char_space)
  then have "split_ws (lower (clean_entries (Some a) @ CHR '' '' # b)) =
      split_ws (clean_entries (Some a)) @ split_ws (lower b)"
    by (simp add: split_ws_append_space isspace_space)
  also have "split_ws (clean_entries (Some a)) = split_ws (lower a)"
    by (simp add: clean_entries_words split_ws_idem)
  also have "split_ws (lower a) @ split_ws (lower b) = split_ws (lower (a @ CHR '' '' # b))"
    by (simp add: lower_def lower_char_space split_ws_append_space isspace_space)
  finally show ?thesis .
qed

lemma join_concat:
  "join sep (x # xs) = x @ concat (map (\<lambda>y. sep @ y) xs)"
  by (induction xs arbitrary: x) simp_all

lemma foldl_columns:
  "set acc \<subseteq> set kept_chars_default \<Longrightarrow>
   clean_entries
     (foldl (\<lambda>col_1 col_2. Some (clean_and_strip col_1 @ '' '' @ clean_and_strip col_2))
        (Some acc) cs) =
   clean_entries (Some (acc @ concat (map (\<lambda>c. '' '' @ clean_and_strip c) cs)))"
proof (induction cs arbitrary: acc)
  case Nil
  show ?case by simp
next
  case (Cons c cs)
  let ?rest = "concat (map (\<lambda>c. '' '' @ clean_and_strip c) cs)"
  let ?acc' = "clean_entries (Some acc) @ '' '' @ clean_and_strip c"
  have kept': "set ?acc' \<subseteq> set kept_chars_default"
    using set_clean_entries_kept [OF Cons.prems] set_clean_and_strip [of c] kept_space
    by auto
  have "clean_entries
      (foldl (\<lambda>col_1 col_2. Some (clean_and_strip col_1 @ '' '' @ clean_and_strip col_2))
        (Some acc) (c # cs)) =
      clean_entries (Some (?acc' @ ?rest))"
    using Cons.IH [OF kept'] by (simp add: clean_and_strip_kept [OF Cons.prems])
  also have "\<dots> = clean_entries (Some (acc @ '' '' @ clean_and_strip c @ ?rest))"
    using split_ws_clean_entries_append [of acc "clean_and_strip c @ ?rest"]
    by (simp add: clean_entries_words)
  finally show ?case by simp
qed

lemma combine_two_or_more:
  "combine_address_columns (c1 # c2 # cs) = Inr (combine_reference (c1 # c2 # cs))"
proof -
  let ?acc = "clean_and_strip c1 @ '' '' @ clean_and_strip c2"
  have kept: "set ?acc \<subseteq> set kept_chars_default"
    using set_clean_and_strip [of c1] set_clean_and_strip [of c2] kept_space by auto
  have "combine_reference (c1 # c2 # cs) =
      clean_entries (Some (?acc @ concat (map (\<lambda>c. '' '' @ clean_and_strip c) cs)))"
    by (simp add: combine_reference_def join_concat comp_def)
  then show ?thesis
    using foldl_columns [OF kept, of cs]
    by (simp add: combine_address_columns_def reduce_def)
qed

lemma combine_kept:
  "set (combine_reference cs) \<subseteq> set kept_chars_default"
proof -
  have "set (join '' '' (map clean_and_strip cs)) \<subseteq> set kept_chars_default"
    using set_clean_and_strip kept_space
    by (induction cs rule: induct_list012) auto
  then show ?thesis
    unfolding combine_reference_def by (rule set_clean_entries_kept)
qed

text \<open>
  C1: for two or more components, the fold of \<^verbatim>\<open>combine_address_columns\<close> returns
  what the reference definition returns: every component normalised and filtered on its
  own, the results joined by single spaces, the joined text normalised again.
\<close>

theorem combine_address_columns_refines_reference:
  "2 \<le> length address_columns \<Longrightarrow>
   combine_address_columns address_columns = Inr (combine_reference address_columns)"
proof -
  assume "2 \<le> length address_columns"
  then obtain c1 c2 cs where "address_columns = c1 # c2 # cs"
    by (cases address_columns; cases "tl address_columns") auto
  then show ?thesis by (simp only: combine_two_or_more)
qed

theorem combine_address_columns_refines_reference_witness:
  "combine_address_columns [Some ''12  Main St.'', None, Some ''Apt #4'', Some ''PHILA''] =
     Inr (combine_reference [Some ''12  Main St.'', None, Some ''Apt #4'', Some ''PHILA'']) \<and>
   combine_reference [Some ''12  Main St.'', None, Some ''Apt #4'', Some ''PHILA''] =
     ''12 main st apt 4 phila''"
proof -
  have len: "2 \<le> length [Some ''12  Main St.'', None, Some ''Apt #4'', Some ''PHILA'']"
    by simp
  have v: "combine_reference [Some ''12  Main St.'', None, Some ''Apt #4'', Some ''PHILA''] =
     ''12 main st apt 4 phila''"
    by (simp add: combine_reference_def clean_and_strip_def eval_text)
  from combine_address_columns_refines_reference [OF len] v show ?thesis by simp
qed

text \<open>
  C9: on a list of one column \<^verbatim>\<open>reduce\<close> returns the column without calling the
  function, so the column is only normalised and a character outside the default
  character set (the number sign of the example) stays in the address; with two or more
  columns every character of the result is in the default character set.
\<close>

theorem single_column_only_normalized:
  "reduce f [c] = Inr c \<and>
   combine_address_columns [c] = Inr (clean_entries c) \<and>
   combine_address_columns [Some ''Apt. #4''] = Inr ''apt. #4'' \<and>
   (2 \<le> length cs \<longrightarrow>
      (\<exists>a. combine_address_columns cs = Inr a \<and> set a \<subseteq> set kept_chars_default))"
proof -
  have one: "combine_address_columns [c] = Inr (clean_entries c)" for c
    by (simp add: combine_address_columns_def reduce_def)
  have "clean_entries (Some ''Apt. #4'') = ''apt. #4''"
    by (simp add: eval_text)
  with one [of "Some ''Apt. #4''"]
  have ex: "combine_address_columns [Some ''Apt. #4''] = Inr ''apt. #4''" by simp
  have "\<exists>a. combine_address_columns cs = Inr a \<and> set a \<subseteq> set kept_chars_default"
    if "2 \<le> length cs"
  proof -
    from that obtain c1 c2 rest where "cs = c1 # c2 # rest"
      by (cases cs; cases "tl cs") auto
    then show ?thesis using combine_two_or_more combine_kept by blast
  qed
  with one ex show ?thesis by (simp add: reduce_def)
qed

theorem single_column_only_normalized_witness:
  "combine_address_columns [Some ''Apt. #4''] = Inr (clean_entries (Some ''Apt. #4'')) \<and>
   CHR ''#'' \<in> set (clean_entries (Some ''Apt. #4'')) \<and>
   CHR ''#'' \<notin> set kept_chars_default \<and>
   (\<exists>a. combine_address_columns [Some ''Apt. #4'', None] = Inr a \<and>
        set a \<subseteq> set kept_chars_default)"
proof -
  have len: "2 \<le> length [Some ''Apt. #4'', None]" by simp
  have v: "clean_entries (Some ''Apt. #4'') = ''apt. #4''"
    by (simp add: eval_text)
  have k: "CHR ''#'' \<notin> set kept_chars_default"
    by (simp add: kept_chars_default_def)
  from single_column_only_normalized [of "\<lambda>a b. a" "Some ''Apt. #4''" "[Some ''Apt. #4'', None]"]
    len v k
  show ?thesis by simp
qed

subsection \<open>Match fields\<close>

lemma assign_present:
  "r source = Some v \<Longrightarrow> assign r target source f = Inr (r(target \<mapsto> Some (f v)))"
  by (simp add: assign_def column_def and_then_def)

lemma petpoint_match_fields_present:
  assumes "r ''outcome_person_name'' = Some n" and "r ''out_email'' = Some e"
    and "r ''out_cell_phone'' = Some c" and "r ''out_home_phone'' = Some p"
  shows "petpoint_match_fields r =
    Inr (r(''match_name'' \<mapsto> Some (clean_and_strip n),
           ''match_email'' \<mapsto> Some (clean_entries e),
           ''match_cell'' \<mapsto> Some (clean_and_strip c),
           ''match_phone'' \<mapsto> Some (clean_and_strip p)))"
  using assms by (simp add: petpoint_match_fields_def assign_present and_then_def)

lemma volgistics_match_fields_present:
  assumes "r ''last_name_first_name'' = Some n" and "r ''email'' = Some e"
    and "r ''cell'' = Some c" and "r ''home'' = Some p"
  shows "volgistics_match_fields r =
    Inr (r(''match_name'' \<mapsto> Some (clean_and_strip n),
           ''match_email'' \<mapsto> Some (clean_entries e),
           ''match_cell'' \<mapsto> Some (clean_and_strip c),
           ''match_phone'' \<mapsto> Some (clean_and_strip p)))"
  using assms by (simp add: volgistics_match_fields_def assign_present and_then_def)

lemma sf_contacts_match_fields_present:
  assumes "r ''last_name'' = Some l" and "r ''first_name'' = Some f"
    and "r ''email'' = Some e" and "r ''mobile'' = Some c" and "r ''phone'' = Some p"
  shows "sf_contacts_match_fields r =
    Inr (r(''match_name'' \<mapsto> Some (clean_and_strip l @ '' '' @ clean_and_strip f),
           ''match_email'' \<mapsto> Some (clean_entries e),
           ''match_cell'' \<mapsto> Some (clean_and_strip c),
           ''match_phone'' \<mapsto> Some (clean_and_strip p)))"
  using assms
  by (simp add: sf_contacts_match_fields_def assign_present and_then_def column_def)

text \<open>
  C4: in each of the three sources, a row that has the columns read gets a name, a cell
  and a phone match field that are normalised and then filtered (the salesforce name being
  the filtered last name, a space and the filtered first name), and an email match field
  that is \<^verbatim>\<open>clean_entries\<close> of the raw email, which the symbol filter never
  touches.
\<close>

theorem match_fields_email_normalized_only:
  "(rp ''outcome_person_name'' = Some np \<and> rp ''out_email'' = Some ep \<and>
    rp ''out_cell_phone'' = Some cp \<and> rp ''out_home_phone'' = Some pp \<longrightarrow>
    petpoint_match_fields rp =
      Inr (rp(''match_name'' \<mapsto> Some (strip_symbols (clean_entries np) kept_chars_default),
              ''match_email'' \<mapsto> Some (clean_entries ep),
              ''match_cell'' \<mapsto> Some (strip_symbols (clean_entries cp) kept_chars_default),
              ''match_phone'' \<mapsto> Some (strip_symbols (clean_entries pp) kept_chars_default)))) \<and>
   (rv ''last_name_first_name'' = Some nv \<and> rv ''email'' = Some ev \<and>
    rv ''cell'' = Some cv \<and> rv ''home'' = Some pv \<longrightarrow>
    volgistics_match_fields rv =
      Inr (rv(''match_name'' \<mapsto> Some (strip_symbols (clean_entries nv) kept_chars_default),
              ''match_email'' \<mapsto> Some (clean_entries ev),
              ''match_cell'' \<mapsto> Some (strip_symbols (clean_entries cv) kept_chars_default),
              ''match_phone'' \<mapsto> Some (strip_symbols (clean_entries pv) kept_chars_default)))) \<and>
   (rs ''last_name'' = Some ls \<and> rs ''first_name'' = Some fs \<and> rs ''email'' = Some es \<and>
    rs ''mobile'' = Some cs \<and> rs ''phone'' = Some ps \<longrightarrow>
    sf_contacts_match_fields rs =
      Inr (rs(''match_name'' \<mapsto>
                Some (strip_symbols (clean_entries ls) kept_chars_default @ '' '' @
                      strip_symbols (clean_entries fs) kept_chars_default),
              ''match_email'' \<mapsto> Some (clean_entries es),
              ''match_cell'' \<mapsto> Some (strip_symbols (clean_entries cs) kept_chars_default),
              ''match_phone'' \<mapsto> Some (strip_symbols (clean_entries ps) kept_chars_default))))"
  using petpoint_match_fields_present [of rp np ep cp pp]
    volgistics_match_fields_present [of rv nv ev cv pv]
    sf_contacts_match_fields_present [of rs ls fs es cs ps]
  unfolding clean_and_strip_def by blast

theorem match_fields_email_normalized_only_witness:
  "petpoint_match_fields petpoint_example =
     Inr (petpoint_example(''match_name'' \<mapsto> Some ''oneil jane'',
            ''match_email'' \<mapsto> Some ''jane.doe@x.com'',
            ''match_cell'' \<mapsto> Some ''215 555-0100'',
            ''match_phone'' \<mapsto> Some [])) \<and>
   volgistics_match_fields volgistics_example =
     Inr (volgistics_example(''match_name'' \<mapsto> Some ''doe john'',
            ''match_email'' \<mapsto> Some ''j_doe@example.org'',
            ''match_cell'' \<mapsto> Some [],
            ''match_phone'' \<mapsto> Some ''2155550101'')) \<and>
   sf_contacts_match_fields sf_contacts_example =
     Inr (sf_contacts_example(''match_name'' \<mapsto> Some ''smith ann-marie'',
            ''match_email'' \<mapsto> Some ''am.smith+paws@mail.com'',
            ''match_cell'' \<mapsto> Some ''267 555 0102'',
            ''match_phone'' \<mapsto> Some []))"
proof -
  have p: "petpoint_example ''outcome_person_name'' = Some (Some ''O'Neil,  Jane'') \<and>
      petpoint_example ''out_email'' = Some (Some ''Jane.Doe@X.COM '') \<and>
      petpoint_example ''out_cell_phone'' = Some (Some ''(215) 555-0100'') \<and>
      petpoint_example ''out_home_phone'' = Some None"
    by (simp add: petpoint_example_def)
  have v: "volgistics_example ''last_name_first_name'' = Some (Some ''Doe, John'') \<and>
      volgistics_example ''email'' = Some (Some '' J_Doe@Example.org'') \<and>
      volgistics_example ''cell'' = Some None \<and>
      volgistics_example ''home'' = Some (Some ''215.555.0101'')"
    by (simp add: volgistics_example_def)
  have s: "sf_contacts_example ''last_name'' = Some (Some ''Smith'') \<and>
      sf_contacts_example ''first_name'' = Some (Some ''Ann-Marie'') \<and>
      sf_contacts_example ''email'' = Some (Some ''AM.Smith+paws@Mail.com'') \<and>
      sf_contacts_example ''mobile'' = Some (Some ''267 555 0102'') \<and>
      sf_contacts_example ''phone'' = Some None"
    by (simp add: sf_contacts_example_def)
  have e1: "strip_symbols (clean_entries (Some ''O'Neil,  Jane'')) kept_chars_default = ''oneil jane''"
    by (simp add: eval_text)
  have e2: "clean_entries (Some ''Jane.Doe@X.COM '') = ''jane.doe@x.com''"
    by (simp add: eval_text)
  have e3: "strip_symbols (clean_entries (Some ''(215) 555-0100'')) kept_chars_default = ''215 555-0100''"
    by (simp add: eval_text)
  have e4: "strip_symbols (clean_entries None) kept_chars_default = []"
    by (simp add: eval_text)
  have e5: "strip_symbols (clean_entries (Some ''Doe, John'')) kept_chars_default = ''doe john''"
    by (simp add: eval_text)
  have e6: "clean_entries (Some '' J_Doe@Example.org'') = ''j_doe@example.org''"
    by (simp add: eval_text)
  have e7: "strip_symbols (clean_entries (Some ''215.555.0101'')) kept_chars_default = ''2155550101''"
    by (simp add: eval_text)
  have e8: "strip_symbols (clean_entries (Some ''Smith'')) kept_chars_default = ''smith''"
    by (simp add: eval_text)
  have e9: "strip_symbols (clean_entries (Some ''Ann-Marie'')) kept_chars_default = ''ann-marie''"
    by (simp add: eval_text)
  have e10: "clean_entries (Some ''AM.Smith+paws@Mail.com'') = ''am.smith+paws@mail.com''"
    by (simp add: eval_text)
  have e11: "strip_symbols (clean_entries (Some ''267 555 0102'')) kept_chars_default = ''267 555 0102''"
    by (simp add: eval_text)
  from match_fields_email_normalized_only
    [of petpoint_example "Some ''O'Neil,  Jane''" "Some ''Jane.Doe@X.COM ''"
      "Some ''(215) 555-0100''" None
      volgistics_example "Some ''Doe, John''" "Some '' J_Doe@Example.org''" None
      "Some ''215.555.0101''"
      sf_contacts_example "Some ''Smith''" "Some ''Ann-Marie''" "Some ''AM.Smith+paws@Mail.com''"
      "Some ''267 555 0102''" None] p v s
  show ?thesis
    by (simp only: e1 e2 e3 e4 e5 e6 e7 e8 e9 e10 e11 simp_thms append.simps)
qed

subsection \<open>Address components\<close>

lemma first_five_eq: "first_five z = Some (take 5 (case z of None \<Rightarrow> [] | Some s \<Rightarrow> s))"
  by (simp add: first_five_def)

text \<open>
  C7: in each of the three sources, the last address component is the first five
  characters of the raw postal code, a missing postal code counting as the empty string;
  the other components are the raw columns in the order of the list. This list is what
  \<^verbatim>\<open>combine_address_columns\<close> receives.
\<close>

theorem postal_code_first_five:
  "(columns rp [''out_street_name'', ''out_street_type'', ''out_street_direction'',
       ''out_street_direction2'', ''out_unit_number'', ''out_city'', ''out_province''] = Inr vp \<and>
    rp ''out_postal_code'' = Some zp \<longrightarrow>
    petpoint_addr_components rp =
      Inr (vp @ [Some (take 5 (case zp of None \<Rightarrow> [] | Some s \<Rightarrow> s))])) \<and>
   (columns rv [''street_1'', ''street_2'', ''street_3'', ''city'', ''state''] = Inr vv \<and>
    rv ''zip'' = Some zv \<longrightarrow>
    volgistics_addr_components rv =
      Inr (vv @ [Some (take 5 (case zv of None \<Rightarrow> [] | Some s \<Rightarrow> s))])) \<and>
   (columns rs [''mailing_street'', ''mailing_city'', ''mailing_state_province''] = Inr vs \<and>
    rs ''mailing_zip_postal_code'' = Some zs \<longrightarrow>
    sf_contacts_addr_components rs =
      Inr (vs @ [Some (take 5 (case zs of None \<Rightarrow> [] | Some s \<Rightarrow> s))]))"
  by (simp add: petpoint_addr_components_def volgistics_addr_components_def
      sf_contacts_addr_components_def first_five_eq column_def and_then_def)

theorem postal_code_first_five_witness:
  "petpoint_addr_components petpoint_example =
     Inr [Some ''12 Main'', Some ''St.'', None, None, Some ''#4'', Some ''Philadelphia'',
          Some ''PA'', Some ''19104''] \<and>
   volgistics_addr_components volgistics_example =
     Inr [Some ''7 Elm Ave'', None, None, Some ''Camden'', Some ''NJ'', Some []] \<and>
   sf_contacts_addr_components sf_contacts_example =
     Inr [Some ''3 Oak Rd'', Some ''Phila'', Some ''PA'', Some ''1910'']"
proof -
  have p: "columns petpoint_example [''out_street_name'', ''out_street_type'',
        ''out_street_direction'', ''out_street_direction2'', ''out_unit_number'', ''out_city'',
        ''out_province''] =
      Inr [Some ''12 Main'', Some ''St.'', None, None, Some ''#4'', Some ''Philadelphia'',
        Some ''PA''] \<and>
      petpoint_example ''out_postal_code'' = Some (Some ''19104-1234'')"
    by (simp add: petpoint_example_def column_def and_then_def)
  have v: "columns volgistics_example [''street_1'', ''street_2'', ''street_3'', ''city'',
        ''state''] =
      Inr [Some ''7 Elm Ave'', None, None, Some ''Camden'', Some ''NJ''] \<and>
      volgistics_example ''zip'' = Some None"
    by (simp add: volgistics_example_def column_def and_then_def)
  have s: "columns sf_contacts_example [''mailing_street'', ''mailing_city'',
        ''mailing_state_province''] =
      Inr [Some ''3 Oak Rd'', Some ''Phila'', Some ''PA''] \<and>
      sf_contacts_example ''mailing_zip_postal_code'' = Some (Some ''1910'')"
    by (simp add: sf_contacts_example_def column_def and_then_def)
  from postal_code_first_five
    [of petpoint_example
      "[Some ''12 Main'', Some ''St.'', None, None, Some ''#4'', Some ''Philadelphia'',
        Some ''PA'']" "Some ''19104-1234''"
      volgistics_example "[Some ''7 Elm Ave'', None, None, Some ''Camden'', Some ''NJ'']" None
      sf_contacts_example "[Some ''3 Oak Rd'', Some ''Phila'', Some ''PA'']" "Some ''1910''"]
    p v s
  show ?thesis by simp
qed

subsection \<open>Address expansion\<close>

lemma json_dumps_Nil: "json_dumps [] = ''[]''"
  by (simp add: json_dumps_def)

lemma json_dumps_empty_iff: "json_dumps candidates = ''[]'' \<longleftrightarrow> candidates = []"
proof (cases candidates)
  case Nil
  then show ?thesis by (simp add: json_dumps_def)
next
  case (Cons x xs)
  then show ?thesis
    by (cases xs) (simp_all add: json_dumps_def json_string_def)
qed

lemma apply_each_Inr_all2:
  "apply_each f xs = Inr ys \<longleftrightarrow> list_all2 (\<lambda>x y. f x = Inr y) xs ys"
proof (induction xs arbitrary: ys)
  case Nil
  show ?case by auto
next
  case (Cons x xs)
  show ?case
  proof (cases "f x")
    case (Inl e)
    then show ?thesis by (auto simp: and_then_def list_all2_Cons1)
  next
    case (Inr y)
    show ?thesis
    proof (cases "apply_each f xs")
      case (Inl e)
      with Cons [of "tl ys"] Inr show ?thesis
        by (auto simp: and_then_def list_all2_Cons1)
    next
      case inner: (Inr zs)
      with Cons Inr show ?thesis
        by (auto simp: and_then_def list_all2_Cons1)
    qed
  qed
qed

lemma apply_each_Inr_iff:
  "apply_each f xs = Inr ys \<longleftrightarrow>
   length ys = length xs \<and> (\<forall>i<length xs. f (xs ! i) = Inr (ys ! i))"
  by (auto simp: apply_each_Inr_all2 list_all2_conv_all_nth)

lemma apply_each_Inl_iff:
  "(\<exists>e. apply_each f xs = Inl e) \<longleftrightarrow> (\<exists>x\<in>set xs. \<exists>e. f x = Inl e)"
  by (induction xs) (auto simp: and_then_def split: sum.splits)

text \<open>
  C6, as the specification states it, does not hold. On the example table the canonical
  addresses are \<^verbatim>\<open>3 oak rd phila pa 19104\<close> and the empty string. With an expansion
  that returns no candidate the stored lists are empty, not the lists of the canonical
  addresses; with an expansion that raises the cell raises; and with an expansion that
  raises on the empty address only, the cell raises as well and loads nothing, although
  the expansion of the first row returned.
\<close>

theorem expansion_fallback_counterexample:
  "stored (sf_contacts expand_identity sf_contacts_frame Map.empty)
     ''salesforcecontacts'' ''match_address_list'' =
     Inr [Some (''['' @ [CHR 0x22] @ ''3 oak rd phila pa 19104'' @ [CHR 0x22] @ '']''),
          Some (''['' @ [CHR 0x22, CHR 0x22] @ '']'')] \<and>
   stored (sf_contacts expand_no_candidates sf_contacts_frame Map.empty)
     ''salesforcecontacts'' ''match_address_list'' = Inr [Some ''[]'', Some ''[]''] \<and>
   sf_contacts expand_raises sf_contacts_frame Map.empty = Inl ExpansionError \<and>
   expand_nonempty ''3 oak rd phila pa 19104'' = Inr [''3 oak rd phila pa 19104''] \<and>
   sf_contacts expand_nonempty sf_contacts_frame Map.empty = Inl ExpansionError"
proof -
  have a: "stored (sf_contacts expand_identity sf_contacts_frame Map.empty)
     ''salesforcecontacts'' ''match_address_list'' =
     Inr [Some (''['' @ [CHR 0x22] @ ''3 oak rd phila pa 19104'' @ [CHR 0x22] @ '']''),
          Some (''['' @ [CHR 0x22, CHR 0x22] @ '']'')]"
    by (simp add: sf_contacts_def sf_contacts_frame_def expand_identity_def eval_frame
        eval_text)
  have b: "stored (sf_contacts expand_no_candidates sf_contacts_frame Map.empty)
     ''salesforcecontacts'' ''match_address_list'' = Inr [Some ''[]'', Some ''[]'']"
    by (simp add: sf_contacts_def sf_contacts_frame_def expand_no_candidates_def eval_frame
        eval_text)
  have c: "sf_contacts expand_raises sf_contacts_frame Map.empty = Inl ExpansionError"
    by (simp add: sf_contacts_def sf_contacts_frame_def expand_raises_def eval_frame
        eval_text)
  have d: "sf_contacts expand_nonempty sf_contacts_frame Map.empty = Inl ExpansionError"
    by (simp add: sf_contacts_def sf_contacts_frame_def expand_nonempty_def eval_frame
        eval_text)
  from a b c d show ?thesis by (simp add: expand_nonempty_def)
qed

text \<open>
  C6, amended: there is no fallback. The last three statements of a cell load the table
  only if the expansion returned for the address of every row, and then the address column
  holds, row by row, the JSON text of exactly the candidates that the expansion returned
  for the combined address of that row; if the combination or the expansion of any row
  raises, that error is the result and nothing is loaded. A stored list is empty exactly
  when the expansion returned no candidate.
\<close>

theorem stored_candidates_follow_expansion:
  "and_then (match_address_list expand_address addr_components df)
     (\<lambda>df. Inr (load_to_sqlite df table_name conn)) =
     (case combine_address_series addr_components of
        Inl e \<Rightarrow> Inl e
      | Inr canonical \<Rightarrow>
          (case apply_each expand_address canonical of
             Inl e \<Rightarrow> Inl e
           | Inr expanded \<Rightarrow>
               Inr (conn(table_name \<mapsto>
                 df(''match_address_list'' \<mapsto>
                      map (\<lambda>candidates. Some (json_dumps candidates)) expanded))))) \<and>
   (apply_each expand_address addresses = Inr expansions \<longleftrightarrow>
      length expansions = length addresses \<and>
      (\<forall>i<length addresses. expand_address (addresses ! i) = Inr (expansions ! i))) \<and>
   ((\<exists>e. apply_each expand_address addresses = Inl e) \<longleftrightarrow>
      (\<exists>address\<in>set addresses. \<exists>e. expand_address address = Inl e)) \<and>
   (json_dumps candidates = ''[]'' \<longleftrightarrow> candidates = [])"
proof -
  have "and_then (match_address_list expand_address addr_components df)
     (\<lambda>df. Inr (load_to_sqlite df table_name conn)) =
     (case combine_address_series addr_components of
        Inl e \<Rightarrow> Inl e
      | Inr canonical \<Rightarrow>
          (case apply_each expand_address canonical of
             Inl e \<Rightarrow> Inl e
           | Inr expanded \<Rightarrow>
               Inr (conn(table_name \<mapsto>
                 df(''match_address_list'' \<mapsto>
                      map (\<lambda>candidates. Some (json_dumps candidates)) expanded)))))"
    by (simp add: match_address_list_def load_to_sqlite_def and_then_def split: sum.splits)
  then show ?thesis
    using apply_each_Inr_iff [of expand_address addresses expansions]
      apply_each_Inl_iff [of expand_address addresses]
      json_dumps_empty_iff [of candidates]
    by blast
qed

theorem stored_candidates_follow_expansion_witness:
  "stored (and_then (match_address_list expand_identity
       [[Some ''12 Main'', None], [Some ''St.'', None]] Map.empty)
     (\<lambda>df. Inr (load_to_sqlite df ''petpoint'' Map.empty)))
     ''petpoint'' ''match_address_list'' =
     Inr [Some (json_dumps [''12 main st'']), Some (json_dumps [[]])] \<and>
   apply_each expand_identity [''12 main st'', []] = Inr [[''12 main st''], [[]]] \<and>
   (\<exists>e. apply_each expand_nonempty [''12 main st'', []] = Inl e) \<and>
   json_dumps [''12 main st''] \<noteq> ''[]''"
proof -
  have c: "combine_address_series [[Some ''12 Main'', None], [Some ''St.'', None]] =
      Inr [''12 main st'', []]"
    by (simp add: combine_address_series_def reduce_def clean_strip_concat_def
        clean_and_strip_def eval_text)
  have e: "apply_each expand_identity [''12 main st'', []] = Inr [[''12 main st''], [[]]]"
    by (simp add: expand_identity_def and_then_def)
  have len: "length [[''12 main st''], [[]]] = length [''12 main st'', []]"
    by simp
  have r: "\<exists>address\<in>set [''12 main st'', []]. \<exists>e. expand_nonempty address = Inl e"
    by (simp add: expand_nonempty_def)
  from stored_candidates_follow_expansion
    [of expand_identity "[[Some ''12 Main'', None], [Some ''St.'', None]]" Map.empty
      "''petpoint''" Map.empty "[''12 main st'', []]" "[[''12 main st''], [[]]]"
      "[''12 main st'']"]
    stored_candidates_follow_expansion
    [of expand_nonempty "[]" Map.empty "[]" Map.empty "[''12 main st'', []]" "[]" "[]"]
    c e r
  show ?thesis
    by (simp add: stored_def and_then_def getitem_def)
qed

subsection \<open>Rows and tables\<close>

text \<open>
  The functions on one row give the rows of what the statements compute on whole columns,
  and a cell that loaded its table went through the expansion of every row.
\<close>

lemma column_row_at:
  "column (row_at df i) name =
     (case getitem df name of Inl e \<Rightarrow> Inl e | Inr s \<Rightarrow> Inr (s ! i))"
  by (simp add: column_def getitem_def row_at_def split: option.splits)

lemma assign_column_row_at:
  "assign_column df target source f = Inr df' \<Longrightarrow> df source = Some s \<Longrightarrow> i < length s \<Longrightarrow>
   assign (row_at df i) target source f = Inr (row_at df' i)"
  by (auto simp: assign_column_def assign_def column_def getitem_def row_at_def and_then_def
      split: option.splits)

lemma clean_strip_concat_nth:
  "length col_1 = n \<Longrightarrow> length col_2 = n \<Longrightarrow>
   length (clean_strip_concat col_1 col_2) = n \<and>
   (\<forall>i<n. clean_strip_concat col_1 col_2 ! i =
      Some (clean_and_strip (col_1 ! i) @ '' '' @ clean_and_strip (col_2 ! i)))"
  by (simp add: clean_strip_concat_def)

lemma foldl_series_rows:
  "length c0 = n \<Longrightarrow> \<forall>c\<in>set cs. length c = n \<Longrightarrow>
   length (foldl clean_strip_concat c0 cs) = n \<and>
   (\<forall>i<n. foldl clean_strip_concat c0 cs ! i =
      foldl (\<lambda>col_1 col_2. Some (clean_and_strip col_1 @ '' '' @ clean_and_strip col_2))
        (c0 ! i) (map (\<lambda>c. c ! i) cs))"
proof (induction cs arbitrary: c0)
  case Nil
  then show ?case by simp
next
  case (Cons c cs)
  from Cons.prems have len: "length c0 = n" "length c = n" by auto
  have step: "length (clean_strip_concat c0 c) = n"
    and nth: "\<forall>i<n. clean_strip_concat c0 c ! i =
      Some (clean_and_strip (c0 ! i) @ '' '' @ clean_and_strip (c ! i))"
    using clean_strip_concat_nth [OF len] by auto
  from Cons.prems have rest: "\<forall>c\<in>set cs. length c = n" by simp
  from Cons.IH [OF step rest] nth show ?case by simp
qed

lemma combine_address_series_rows:
  "address_columns \<noteq> [] \<Longrightarrow> \<forall>c\<in>set address_columns. length c = n \<Longrightarrow>
   \<exists>addresses. combine_address_series address_columns = Inr addresses \<and>
     length addresses = n \<and>
     (\<forall>i<n. combine_address_columns (map (\<lambda>c. c ! i) address_columns) =
        Inr (addresses ! i))"
proof -
  assume ne: "address_columns \<noteq> []" and len: "\<forall>c\<in>set address_columns. length c = n"
  from ne obtain c0 cs where cols: "address_columns = c0 # cs"
    by (cases address_columns) auto
  with len have "length c0 = n" "\<forall>c\<in>set cs. length c = n" by auto
  from foldl_series_rows [OF this] cols show ?thesis
    by (simp add: combine_address_series_def combine_address_columns_def reduce_def)
qed

lemma petpoint_stores_after_expansion:
  "petpoint expand_address df conn = Inr conn' \<Longrightarrow>
   \<exists>components canonical expanded df'.
     combine_address_series components = Inr canonical \<and>
     apply_each expand_address canonical = Inr expanded \<and>
     conn' = conn(''petpoint'' \<mapsto> df') \<and>
     df' ''match_address_list'' = Some (map (\<lambda>candidates. Some (json_dumps candidates)) expanded)"
  unfolding petpoint_def match_address_list_def load_to_sqlite_def and_then_def
  apply (clarsimp split: sum.splits)
  subgoal for a b c d components postal_code canonical expanded
    apply (rule exI [of _ "components @ [map first_five postal_code]"])
    apply (rule exI [of _ canonical])
    apply simp
    apply (rule exI [of _ "d(''match_address_list'' \<mapsto>
        map (\<lambda>candidates. Some (json_dumps candidates)) expanded)"])
    apply simp
    done
  done

lemma volgistics_stores_after_expansion:
  "volgistics expand_address df conn = Inr conn' \<Longrightarrow>
   \<exists>components canonical expanded df'.
     combine_address_series components = Inr canonical \<and>
     apply_each expand_address canonical = Inr expanded \<and>
     conn' = conn(''volgistics'' \<mapsto> df') \<and>
     df' ''match_address_list'' = Some (map (\<lambda>candidates. Some (json_dumps candidates)) expanded)"
  unfolding volgistics_def match_address_list_def load_to_sqlite_def and_then_def
  apply (clarsimp split: sum.splits)
  subgoal for a b c d components postal_code canonical expanded
    apply (rule exI [of _ "components @ [map first_five postal_code]"])
    apply (rule exI [of _ canonical])
    apply simp
    apply (rule exI [of _ "d(''match_address_list'' \<mapsto>
        map (\<lambda>candidates. Some (json_dumps candidates)) expanded)"])
    apply simp
    done
  done

lemma sf_contacts_stores_after_expansion:
  "sf_contacts expand_address df conn = Inr conn' \<Longrightarrow>
   \<exists>components canonical expanded df'.
     combine_address_series components = Inr canonical \<and>
     apply_each expand_address canonical = Inr expanded \<and>
     conn' = conn(''salesforcecontacts'' \<mapsto> df') \<and>
     df' ''match_address_list'' = Some (map (\<lambda>candidates. Some (json_dumps candidates)) expanded)"
  unfolding sf_contacts_def match_address_list_def load_to_sqlite_def and_then_def Let_def
  apply (clarsimp split: sum.splits)
  subgoal for last_name first_name a b c components postal_code canonical expanded
    apply (rule exI [of _ "components @ [map first_five postal_code]"])
    apply (rule exI [of _ canonical])
    apply simp
    apply (rule exI [of _ "c(''match_address_list'' \<mapsto>
        map (\<lambda>candidates. Some (json_dumps candidates)) expanded)"])
    apply simp
    done
  done

end
